theory Spec2Isabelle
  imports Main
begin

section \<open>The per-stream cuSPARSE handle cache of \<^verbatim>\<open>cuda_sparse.cc\<close>\<close>

text \<open>
  The file \<^verbatim>\<open>tensorflow/core/kernels/cuda_sparse.cc\<close> keeps one set of cuSPARSE library
  handles per CUDA stream in a process-wide map. This theory embeds the class
  \<^verbatim>\<open>CudaSparseHandles\<close> (lines 73-130), the map and \<^verbatim>\<open>CudaSparse::Initialize\<close>
  (lines 139-181) and the wrapper \<^verbatim>\<open>CudaSparse::Coo2csr\<close> (lines 391-405).

  C++ member names end in an underscore, which is not a legal constant name here; the
  fields keep their names without it. The two classes both have members
  \<^verbatim>\<open>initialized_\<close> and \<^verbatim>\<open>cusparse_handle_\<close>; those of \<^verbatim>\<open>CudaSparse\<close> carry the prefix
  \<open>cs_\<close>.
\<close>

subsection \<open>The native library\<close>

text \<open>
  Streams, handles and status codes are opaque values of the vendor library; they are
  numbers here. \<^verbatim>\<open>CUSPARSE_STATUS_SUCCESS\<close> is the enumerator 0 of \<^verbatim>\<open>cusparseStatus_t\<close>.
\<close>

type_synonym cudaStream_t = nat
type_synonym cusparseHandle_t = nat
type_synonym cusparseStatus_t = nat

definition CUSPARSE_STATUS_SUCCESS :: cusparseStatus_t where
  "CUSPARSE_STATUS_SUCCESS = 0"

text \<open>
  Every call into the library is recorded, with its arguments and the status it returned.
  A handle argument is \<open>None\<close> when the C++ variable passed was never written
  (an indeterminate value). For \<^verbatim>\<open>cusparseCreate\<close> the second component is the content of
  the out-parameter after the call.
\<close>

datatype native_call =
    cusparseCreate_call cusparseStatus_t "cusparseHandle_t option"
  | cusparseSetStream_call "cusparseHandle_t option" cudaStream_t cusparseStatus_t
  | cusparseDestroy_call "cusparseHandle_t option" cusparseStatus_t
  | cusparseXcoo2csr_call "cusparseHandle_t option" int int cusparseStatus_t

text \<open>
  The library is outside the repository, so its behaviour is a parameter: \<open>status_of w k\<close>
  is the status returned by the \<open>k\<close>-th call made to the library and \<open>handle_of w k\<close> the
  handle that call creates if it is a successful \<^verbatim>\<open>cusparseCreate\<close>. \<open>calls w\<close> is the
  log of the calls made so far. A failed \<^verbatim>\<open>cusparseCreate\<close> is taken to leave its
  out-parameter as it was; no result below depends on that choice.
\<close>

record native =
  status_of :: "nat \<Rightarrow> cusparseStatus_t"
  handle_of :: "nat \<Rightarrow> cusparseHandle_t"
  calls :: "native_call list"

definition cusparseCreate ::
  "cusparseHandle_t option \<Rightarrow> native \<Rightarrow> cusparseStatus_t \<times> cusparseHandle_t option \<times> native" where
  "cusparseCreate hp w =
     (let st = status_of w (length (calls w));
          h = (if st = CUSPARSE_STATUS_SUCCESS then Some (handle_of w (length (calls w))) else hp)
      in (st, h, w\<lparr>calls := calls w @ [cusparseCreate_call st h]\<rparr>))"

definition cusparseSetStream ::
  "cusparseHandle_t option \<Rightarrow> cudaStream_t \<Rightarrow> native \<Rightarrow> cusparseStatus_t \<times> native" where
  "cusparseSetStream h s w =
     (let st = status_of w (length (calls w))
      in (st, w\<lparr>calls := calls w @ [cusparseSetStream_call h s st]\<rparr>))"

definition cusparseDestroy ::
  "cusparseHandle_t option \<Rightarrow> native \<Rightarrow> cusparseStatus_t \<times> native" where
  "cusparseDestroy h w =
     (let st = status_of w (length (calls w))
      in (st, w\<lparr>calls := calls w @ [cusparseDestroy_call h st]\<rparr>))"

definition cusparseXcoo2csr ::
  "cusparseHandle_t option \<Rightarrow> int \<Rightarrow> int \<Rightarrow> native \<Rightarrow> cusparseStatus_t \<times> native" where
  "cusparseXcoo2csr h nnz m w =
     (let st = status_of w (length (calls w))
      in (st, w\<lparr>calls := calls w @ [cusparseXcoo2csr_call h nnz m st]\<rparr>))"

subsection \<open>Status values and fatal checks\<close>

text \<open>
  Modelled from the spec: the macros \<^verbatim>\<open>TF_RETURN_IF_CUSPARSE_ERROR\<close> (declared in
  \<^verbatim>\<open>cuda_sparse.h\<close>) and \<^verbatim>\<open>TF_RETURN_IF_ERROR\<close> and the class \<^verbatim>\<open>Status\<close> are missing
  from the sources. Following the specification, a native status other than success makes
  the enclosing function return at once with an initialization error that carries the
  native code; \<^verbatim>\<open>TF_RETURN_IF_ERROR\<close> returns any status that is not \<open>OK\<close>.
\<close>

datatype Status = OK | InitializationError cusparseStatus_t

text \<open>
  Modelled from the spec: the macro \<^verbatim>\<open>DCHECK\<close> (declared in the platform logging
  header) is missing from the sources. Following the specification it is a fatal check:
  when its condition is false the process terminates abnormally. The two faults are the
  specification's \<open>ContractViolation\<close> (line 106) and \<open>ConsistencyFault\<close> (line 120).
  \<open>NullDereference\<close> stands for reading through the pointer member of \<^verbatim>\<open>CudaSparse\<close>
  when it was never set.
\<close>

datatype fault = ContractViolation | ConsistencyFault | NullDereference

subsection \<open>The class \<^verbatim>\<open>CudaSparseHandles\<close>\<close>

record CudaSparseHandles =
  initialized :: bool
  stream :: cudaStream_t
  cusparse_handle :: "cusparseHandle_t option"

text \<open>Line 75: the explicit constructor leaves \<^verbatim>\<open>cusparse_handle_\<close> unwritten.\<close>

definition CudaSparseHandles_ctor :: "cudaStream_t \<Rightarrow> CudaSparseHandles" where
  "CudaSparseHandles_ctor s =
     \<lparr>initialized = False, stream = s, cusparse_handle = None\<rparr>"

text \<open>
  Lines 78-83: the move constructor. It returns the new object and the state in which it
  leaves \<open>rhs\<close>.
\<close>

definition move_ctor :: "CudaSparseHandles \<Rightarrow> CudaSparseHandles \<times> CudaSparseHandles" where
  "move_ctor rhs =
     (\<lparr>initialized = initialized rhs, stream = stream rhs,
       cusparse_handle = cusparse_handle rhs\<rparr>,
      rhs\<lparr>initialized := False\<rparr>)"

text \<open>Lines 116-124: \<^verbatim>\<open>Release\<close>.\<close>

definition Release :: "CudaSparseHandles \<Rightarrow> native \<Rightarrow> (fault + CudaSparseHandles) \<times> native" where
  "Release e w =
     (if initialized e then
        (case cusparseDestroy (cusparse_handle e) w of
           (err, w') \<Rightarrow>
             if err = CUSPARSE_STATUS_SUCCESS then (Inr (e\<lparr>initialized := False\<rparr>), w')
             else (Inl ConsistencyFault, w'))
      else (Inr e, w))"

text \<open>Line 95: the destructor runs \<^verbatim>\<open>Release\<close>; afterwards the object is gone.\<close>

definition dtor :: "CudaSparseHandles \<Rightarrow> native \<Rightarrow> (fault + unit) \<times> native" where
  "dtor e w = (case Release e w of (Inl f, w') \<Rightarrow> (Inl f, w') | (Inr _, w') \<Rightarrow> (Inr (), w'))"

text \<open>
  Lines 85-93: move assignment. The test \<^verbatim>\<open>this == &rhs\<close> compares addresses, so the two
  objects live in a store, a function from addresses to objects.
\<close>

type_synonym addr = nat
type_synonym objects = "addr \<Rightarrow> CudaSparseHandles"

definition move_assign :: "addr \<Rightarrow> addr \<Rightarrow> objects \<Rightarrow> native \<Rightarrow> (fault + objects) \<times> native" where
  "move_assign this rhs objs w =
     (if this = rhs then (Inr objs, w)
      else
        (case Release (objs this) w of
           (Inl f, w') \<Rightarrow> (Inl f, w')
         | (Inr t, w') \<Rightarrow>
             (Inr (objs(this := t\<lparr>stream := stream (objs rhs),
                                  cusparse_handle := cusparse_handle (objs rhs),
                                  initialized := initialized (objs rhs)\<rparr>,
                        rhs := (objs rhs)\<lparr>initialized := False\<rparr>)), w')))"

text \<open>Lines 97-103: \<^verbatim>\<open>CudaSparseHandles::Initialize\<close>.\<close>

definition Initialize :: "CudaSparseHandles \<Rightarrow> native \<Rightarrow> (Status \<times> CudaSparseHandles) \<times> native" where
  "Initialize e w =
     (if initialized e then ((OK, e), w)
      else
        (case cusparseCreate (cusparse_handle e) w of
           (st1, h, w1) \<Rightarrow>
             if st1 \<noteq> CUSPARSE_STATUS_SUCCESS
             then ((InitializationError st1, e\<lparr>cusparse_handle := h\<rparr>), w1)
             else
               (case cusparseSetStream h (stream e) w1 of
                  (st2, w2) \<Rightarrow>
                    if st2 \<noteq> CUSPARSE_STATUS_SUCCESS
                    then ((InitializationError st2, e\<lparr>cusparse_handle := h\<rparr>), w2)
                    else ((OK, e\<lparr>cusparse_handle := h, initialized := True\<rparr>), w2))))"

text \<open>Lines 105-113: \<^verbatim>\<open>handle()\<close>, both overloads.\<close>

definition handle :: "CudaSparseHandles \<Rightarrow> fault + cusparseHandle_t option" where
  "handle e = (if initialized e then Inr (cusparse_handle e) else Inl ContractViolation)"

subsection \<open>The handle map and the class \<^verbatim>\<open>CudaSparse\<close>\<close>

text \<open>
  Line 141: the map from streams to handle sets. Elements of a \<^verbatim>\<open>std::unordered_map\<close>
  never move and the code never erases one, so the address
  \<^verbatim>\<open>&it->second.handle()\<close> stored by \<^verbatim>\<open>CudaSparse::Initialize\<close> is identified by the
  key of the element it points into.
\<close>

type_synonym HandleMap = "cudaStream_t \<rightharpoonup> CudaSparseHandles"

record CudaSparse =
  cs_initialized :: bool
  cuda_stream :: cudaStream_t
  cs_cusparse_handle :: "cudaStream_t option"

text \<open>
  Lines 152-161: the constructor reads the stream out of the kernel context; the context
  is represented by that stream. The pointer member is not written.
\<close>

definition CudaSparse_ctor :: "cudaStream_t \<Rightarrow> CudaSparse" where
  "CudaSparse_ctor s = \<lparr>cs_initialized = False, cuda_stream = s, cs_cusparse_handle = None\<rparr>"

text \<open>
  Lines 163-181: \<^verbatim>\<open>CudaSparse::Initialize\<close>, the specification's \<open>acquire\<close>. The whole body
  runs under \<^verbatim>\<open>handle_map_mutex\<close>. The check on line 165 cannot fail: the pointer
  comes from \<^verbatim>\<open>new\<close> on line 146. \<open>insert_new\<close> is lines 174-177: \<^verbatim>\<open>std::make_pair\<close>
  move-constructs a temporary pair from \<^verbatim>\<open>new_handles\<close>, \<^verbatim>\<open>insert\<close> move-constructs the
  map element from the temporary, the temporary is destroyed at the end of the statement
  and \<^verbatim>\<open>new_handles\<close> at the end of the block. \<open>finish\<close> is lines 178-180.
\<close>

definition finish ::
  "CudaSparse \<Rightarrow> HandleMap \<Rightarrow> native \<Rightarrow> (fault + Status \<times> CudaSparse \<times> HandleMap) \<times> native" where
  "finish cs m w =
     (case m (cuda_stream cs) of
        None \<Rightarrow> (Inl NullDereference, w)
      | Some e \<Rightarrow>
          (case handle e of
             Inl f \<Rightarrow> (Inl f, w)
           | Inr _ \<Rightarrow>
               (Inr (OK, cs\<lparr>cs_cusparse_handle := Some (cuda_stream cs),
                              cs_initialized := True\<rparr>, m), w)))"

definition insert_new ::
  "CudaSparse \<Rightarrow> CudaSparseHandles \<Rightarrow> HandleMap \<Rightarrow> native \<Rightarrow> (fault + HandleMap) \<times> native" where
  "insert_new cs new_handles m w =
     (case move_ctor new_handles of
        (tmp, new_handles') \<Rightarrow>
          (case move_ctor tmp of
             (elem, tmp') \<Rightarrow>
               (case dtor tmp' w of
                  (Inl f, w1) \<Rightarrow> (Inl f, w1)
                | (Inr _, w1) \<Rightarrow>
                    (case dtor new_handles' w1 of
                       (Inl f, w2) \<Rightarrow> (Inl f, w2)
                     | (Inr _, w2) \<Rightarrow> (Inr (m(cuda_stream cs \<mapsto> elem)), w2)))))"

definition CudaSparse_Initialize ::
  "CudaSparse \<Rightarrow> HandleMap \<Rightarrow> native \<Rightarrow> (fault + Status \<times> CudaSparse \<times> HandleMap) \<times> native" where
  "CudaSparse_Initialize cs m w =
     (case m (cuda_stream cs) of
        Some e \<Rightarrow> finish cs m w
      | None \<Rightarrow>
          (case Initialize (CudaSparseHandles_ctor (cuda_stream cs)) w of
             ((st, new_handles), w1) \<Rightarrow>
               if st \<noteq> OK then
                 (case dtor new_handles w1 of
                    (Inl f, w2) \<Rightarrow> (Inl f, w2)
                  | (Inr _, w2) \<Rightarrow> (Inr (st, cs, m), w2))
               else
                 (case insert_new cs new_handles m w1 of
                    (Inl f, w2) \<Rightarrow> (Inl f, w2)
                  | (Inr m', w2) \<Rightarrow> finish cs m' w2)))"

text \<open>
  Lines 391-405: \<^verbatim>\<open>CudaSparse::Coo2csr\<close>. The device arrays are not part of the model;
  the integer arguments are passed through.
\<close>

definition Coo2csr ::
  "CudaSparse \<Rightarrow> int \<Rightarrow> int \<Rightarrow> HandleMap \<Rightarrow> native \<Rightarrow> (fault + Status) \<times> native" where
  "Coo2csr cs nnz m_rows m w =
     (if \<not> cs_initialized cs then (Inl ContractViolation, w)
      else
        (case cs_cusparse_handle cs of
           None \<Rightarrow> (Inl NullDereference, w)
         | Some k \<Rightarrow>
             (case m k of
                None \<Rightarrow> (Inl NullDereference, w)
              | Some e \<Rightarrow>
                  (case cusparseXcoo2csr (cusparse_handle e) nnz m_rows w of
                     (st, w') \<Rightarrow>
                       if st \<noteq> CUSPARSE_STATUS_SUCCESS
                       then (Inr (InitializationError st), w')
                       else (Inr OK, w')))))"

subsection \<open>Histories of acquisitions\<close>

text \<open>
  A history is the list of streams for which \<^verbatim>\<open>CudaSparse::Initialize\<close> is called, each
  time on a freshly constructed \<^verbatim>\<open>CudaSparse\<close>. The process starts with the empty map
  (line 146). A fatal check ends the history.
\<close>

fun acquire_all :: "cudaStream_t list \<Rightarrow> HandleMap \<Rightarrow> native \<Rightarrow> (fault + HandleMap) \<times> native" where
  "acquire_all [] m w = (Inr m, w)"
| "acquire_all (s # ss) m w =
     (case CudaSparse_Initialize (CudaSparse_ctor s) m w of
        (Inl f, w') \<Rightarrow> (Inl f, w')
      | (Inr (st, cs', m'), w') \<Rightarrow> acquire_all ss m' w')"

fun is_create :: "native_call \<Rightarrow> bool" where
  "is_create (cusparseCreate_call st h) = True"
| "is_create c = False"

fun is_destroy :: "native_call \<Rightarrow> bool" where
  "is_destroy (cusparseDestroy_call h st) = True"
| "is_destroy c = False"

definition creations :: "native \<Rightarrow> nat" where
  "creations w = length (filter is_create (calls w))"

definition destructions :: "native \<Rightarrow> nat" where
  "destructions w = length (filter is_destroy (calls w))"

text \<open>
  The invariant of the map: the element stored under a stream is initialized, is bound to
  that stream, and holds the handle made by a \<^verbatim>\<open>cusparseCreate\<close> call that was followed
  at once by the successful \<^verbatim>\<open>cusparseSetStream\<close> call for that stream.
\<close>

definition HandleMap_inv :: "HandleMap \<Rightarrow> native \<Rightarrow> bool" where
  "HandleMap_inv m w \<longleftrightarrow>
     (\<forall>s e. m s = Some e \<longrightarrow>
        initialized e \<and> stream e = s \<and>
        (\<exists>k. Suc k < length (calls w) \<and> cusparse_handle e = Some (handle_of w k) \<and>
             calls w ! Suc k =
               cusparseSetStream_call (Some (handle_of w k)) s CUSPARSE_STATUS_SUCCESS))"

subsection \<open>Concrete native libraries and stores\<close>

text \<open>
  \<open>native_ok\<close> is a library in which every call succeeds; in \<open>native_fails_at i c\<close> the
  \<open>i\<close>-th call returns the status \<open>c\<close> and every other call succeeds. Both start with an
  empty log and hand out the handles 100, 101, ...
\<close>

definition native_ok :: native where
  "native_ok =
     \<lparr>status_of = (\<lambda>k. CUSPARSE_STATUS_SUCCESS), handle_of = (\<lambda>k. 100 + k), calls = []\<rparr>"

definition native_fails_at :: "nat \<Rightarrow> cusparseStatus_t \<Rightarrow> native" where
  "native_fails_at i c =
     \<lparr>status_of = (\<lambda>k. if k = i then c else CUSPARSE_STATUS_SUCCESS),
      handle_of = (\<lambda>k. 100 + k), calls = []\<rparr>"

text \<open>A store in which every address holds an initialized entry with a handle of its own.\<close>

definition live_entries :: objects where
  "live_entries = (\<lambda>a. \<lparr>initialized = True, stream = a, cusparse_handle = Some (10 + a)\<rparr>)"

section \<open>Auxiliary facts\<close>

subsection \<open>What each operation computes\<close>

lemma Release_uninitialized: "\<not> initialized e \<Longrightarrow> Release e w = (Inr e, w)"
  by (simp add: Release_def)

lemma Release_initialized:
  "initialized e \<Longrightarrow>
   Release e w =
     (if status_of w (length (calls w)) = CUSPARSE_STATUS_SUCCESS
      then Inr (e\<lparr>initialized := False\<rparr>) else Inl ConsistencyFault,
      w\<lparr>calls := calls w @
          [cusparseDestroy_call (cusparse_handle e) (status_of w (length (calls w)))]\<rparr>)"
  by (simp add: Release_def cusparseDestroy_def Let_def)

lemma dtor_uninitialized: "\<not> initialized e \<Longrightarrow> dtor e w = (Inr (), w)"
  by (simp add: dtor_def Release_uninitialized)

lemma dtor_initialized:
  "initialized e \<Longrightarrow>
   dtor e w =
     (if status_of w (length (calls w)) = CUSPARSE_STATUS_SUCCESS
      then Inr () else Inl ConsistencyFault,
      w\<lparr>calls := calls w @
          [cusparseDestroy_call (cusparse_handle e) (status_of w (length (calls w)))]\<rparr>)"
  by (simp add: dtor_def Release_initialized)

lemma Initialize_create_fails:
  "\<not> initialized e \<Longrightarrow> status_of w (length (calls w)) \<noteq> CUSPARSE_STATUS_SUCCESS \<Longrightarrow>
   Initialize e w =
     ((InitializationError (status_of w (length (calls w))), e),
      w\<lparr>calls := calls w @
          [cusparseCreate_call (status_of w (length (calls w))) (cusparse_handle e)]\<rparr>)"
  by (simp add: Initialize_def cusparseCreate_def Let_def)

lemma Initialize_bind_fails:
  "\<not> initialized e \<Longrightarrow> status_of w (length (calls w)) = CUSPARSE_STATUS_SUCCESS \<Longrightarrow>
   status_of w (Suc (length (calls w))) \<noteq> CUSPARSE_STATUS_SUCCESS \<Longrightarrow>
   Initialize e w =
     ((InitializationError (status_of w (Suc (length (calls w)))),
       e\<lparr>cusparse_handle := Some (handle_of w (length (calls w)))\<rparr>),
      w\<lparr>calls := calls w @
          [cusparseCreate_call CUSPARSE_STATUS_SUCCESS (Some (handle_of w (length (calls w)))),
           cusparseSetStream_call (Some (handle_of w (length (calls w)))) (stream e)
             (status_of w (Suc (length (calls w))))]\<rparr>)"
  by (simp add: Initialize_def cusparseCreate_def cusparseSetStream_def Let_def)

lemma Initialize_succeeds:
  "\<not> initialized e \<Longrightarrow> status_of w (length (calls w)) = CUSPARSE_STATUS_SUCCESS \<Longrightarrow>
   status_of w (Suc (length (calls w))) = CUSPARSE_STATUS_SUCCESS \<Longrightarrow>
   Initialize e w =
     ((OK, e\<lparr>cusparse_handle := Some (handle_of w (length (calls w))), initialized := True\<rparr>),
      w\<lparr>calls := calls w @
          [cusparseCreate_call CUSPARSE_STATUS_SUCCESS (Some (handle_of w (length (calls w)))),
           cusparseSetStream_call (Some (handle_of w (length (calls w)))) (stream e)
             CUSPARSE_STATUS_SUCCESS]\<rparr>)"
  by (simp add: Initialize_def cusparseCreate_def cusparseSetStream_def Let_def)

lemma acquire_present:
  "m (cuda_stream cs) = Some e \<Longrightarrow> initialized e \<Longrightarrow>
   CudaSparse_Initialize cs m w =
     (Inr (OK, cs\<lparr>cs_cusparse_handle := Some (cuda_stream cs), cs_initialized := True\<rparr>, m), w)"
  by (simp add: CudaSparse_Initialize_def finish_def handle_def)

lemma acquire_create_fails:
  "m (cuda_stream cs) = None \<Longrightarrow>
   status_of w (length (calls w)) \<noteq> CUSPARSE_STATUS_SUCCESS \<Longrightarrow>
   CudaSparse_Initialize cs m w =
     (Inr (InitializationError (status_of w (length (calls w))), cs, m),
      w\<lparr>calls := calls w @ [cusparseCreate_call (status_of w (length (calls w))) None]\<rparr>)"
  by (simp add: CudaSparse_Initialize_def CudaSparseHandles_ctor_def Initialize_create_fails
      dtor_uninitialized)

lemma acquire_bind_fails:
  "m (cuda_stream cs) = None \<Longrightarrow>
   status_of w (length (calls w)) = CUSPARSE_STATUS_SUCCESS \<Longrightarrow>
   status_of w (Suc (length (calls w))) \<noteq> CUSPARSE_STATUS_SUCCESS \<Longrightarrow>
   CudaSparse_Initialize cs m w =
     (Inr (InitializationError (status_of w (Suc (length (calls w)))), cs, m),
      w\<lparr>calls := calls w @
          [cusparseCreate_call CUSPARSE_STATUS_SUCCESS (Some (handle_of w (length (calls w)))),
           cusparseSetStream_call (Some (handle_of w (length (calls w)))) (cuda_stream cs)
             (status_of w (Suc (length (calls w))))]\<rparr>)"
  by (simp add: CudaSparse_Initialize_def CudaSparseHandles_ctor_def Initialize_bind_fails
      dtor_uninitialized)

lemma acquire_absent_succeeds:
  "m (cuda_stream cs) = None \<Longrightarrow>
   status_of w (length (calls w)) = CUSPARSE_STATUS_SUCCESS \<Longrightarrow>
   status_of w (Suc (length (calls w))) = CUSPARSE_STATUS_SUCCESS \<Longrightarrow>
   CudaSparse_Initialize cs m w =
     (Inr (OK, cs\<lparr>cs_cusparse_handle := Some (cuda_stream cs), cs_initialized := True\<rparr>,
           m(cuda_stream cs \<mapsto>
             \<lparr>initialized = True, stream = cuda_stream cs,
              cusparse_handle = Some (handle_of w (length (calls w)))\<rparr>)),
      w\<lparr>calls := calls w @
          [cusparseCreate_call CUSPARSE_STATUS_SUCCESS (Some (handle_of w (length (calls w)))),
           cusparseSetStream_call (Some (handle_of w (length (calls w)))) (cuda_stream cs)
             CUSPARSE_STATUS_SUCCESS]\<rparr>)"
  by (simp add: CudaSparse_Initialize_def CudaSparseHandles_ctor_def Initialize_succeeds
      insert_new_def move_ctor_def dtor_uninitialized finish_def handle_def)


lemma Release_twice:
  assumes "Release e w = (Inr e', w')"
  shows "\<not> initialized e' \<and> Release e' w' = (Inr e', w') \<and> dtor e' w' = (Inr (), w')"
proof -
  have "\<not> initialized e'"
  proof (cases "initialized e")
    case True
    with assms show ?thesis
      by (simp add: Release_initialized split: if_splits prod.splits) auto
  next
    case False
    with assms show ?thesis by (simp add: Release_uninitialized)
  qed
  then show ?thesis by (simp add: Release_uninitialized dtor_uninitialized)
qed

lemma dtor_calls:
  "calls (snd (dtor e w)) =
     calls w @ (if initialized e
                then [cusparseDestroy_call (cusparse_handle e) (status_of w (length (calls w)))]
                else [])"
  by (cases "initialized e") (simp_all add: dtor_initialized dtor_uninitialized)

lemma acquire_error_leaves_object:
  assumes "CudaSparse_Initialize cs m w = (Inr (InitializationError c, cs', m'), w')"
  shows "cs' = cs \<and> m' = m"
proof (cases "m (cuda_stream cs)")
  case (Some e)
  with assms show ?thesis
    by (simp add: CudaSparse_Initialize_def finish_def split: sum.splits)
next
  case None
  with assms show ?thesis
    by (simp add: CudaSparse_Initialize_def finish_def
        split: prod.splits if_splits sum.splits option.splits)
qed

lemma acquire_absent_first_call:
  assumes absent: "m (cuda_stream cs) = None"
  shows "\<exists>st h rest. calls (snd (CudaSparse_Initialize cs m w)) =
            calls w @ cusparseCreate_call st h # rest"
proof (cases "status_of w (length (calls w)) = CUSPARSE_STATUS_SUCCESS")
  case False
  with absent show ?thesis by (simp add: acquire_create_fails)
next
  case c: True
  show ?thesis
  proof (cases "status_of w (Suc (length (calls w))) = CUSPARSE_STATUS_SUCCESS")
    case False
    with absent c show ?thesis by (simp add: acquire_bind_fails)
  next
    case True
    with absent c show ?thesis by (simp add: acquire_absent_succeeds)
  qed
qed

lemma move_assign_self: "move_assign a a objs w = (Inr objs, w)"
  by (simp add: move_assign_def)

lemma overwrite_all_fields:
  "(t :: CudaSparseHandles)\<lparr>stream := stream r, cusparse_handle := cusparse_handle r,
       initialized := initialized r\<rparr> = r"
  by (cases t, cases r) simp

lemma copy_all_fields:
  "\<lparr>initialized = initialized r, stream = stream r, cusparse_handle = cusparse_handle r\<rparr>
     = (r :: CudaSparseHandles)"
  by (cases r) simp

lemma move_assign_uninitialized_target:
  "this \<noteq> rhs \<Longrightarrow> \<not> initialized (objs this) \<Longrightarrow>
   move_assign this rhs objs w =
     (Inr (objs(this := objs rhs, rhs := (objs rhs)\<lparr>initialized := False\<rparr>)), w)"
  by (simp add: move_assign_def Release_uninitialized overwrite_all_fields)

lemma move_assign_initialized_target:
  "this \<noteq> rhs \<Longrightarrow> initialized (objs this) \<Longrightarrow>
   move_assign this rhs objs w =
     (if status_of w (length (calls w)) = CUSPARSE_STATUS_SUCCESS
      then Inr (objs(this := objs rhs, rhs := (objs rhs)\<lparr>initialized := False\<rparr>))
      else Inl ConsistencyFault,
      w\<lparr>calls := calls w @
          [cusparseDestroy_call (cusparse_handle (objs this)) (status_of w (length (calls w)))]\<rparr>)"
  by (simp add: move_assign_def Release_initialized overwrite_all_fields)

subsection \<open>The invariant holds along every history\<close>

lemma HandleMap_inv_empty: "HandleMap_inv Map.empty w"
  by (simp add: HandleMap_inv_def)

lemma HandleMap_inv_extend:
  assumes "HandleMap_inv m w" and "handle_of w' = handle_of w" and "calls w' = calls w @ xs"
  shows "HandleMap_inv m w'"
  unfolding HandleMap_inv_def
proof (intro allI impI)
  fix s e
  assume "m s = Some e"
  with assms(1) obtain k where ie: "initialized e" "stream e = s"
    and k: "Suc k < length (calls w)" "cusparse_handle e = Some (handle_of w k)"
      "calls w ! Suc k = cusparseSetStream_call (Some (handle_of w k)) s CUSPARSE_STATUS_SUCCESS"
    unfolding HandleMap_inv_def by blast
  from k assms(2,3) have "Suc k < length (calls w') \<and> cusparse_handle e = Some (handle_of w' k) \<and>
      calls w' ! Suc k = cusparseSetStream_call (Some (handle_of w' k)) s CUSPARSE_STATUS_SUCCESS"
    by (simp add: nth_append)
  with ie show "initialized e \<and> stream e = s \<and>
        (\<exists>k. Suc k < length (calls w') \<and> cusparse_handle e = Some (handle_of w' k) \<and>
             calls w' ! Suc k =
               cusparseSetStream_call (Some (handle_of w' k)) s CUSPARSE_STATUS_SUCCESS)"
    by blast
qed

lemma HandleMap_inv_insert:
  assumes "HandleMap_inv m w"
  shows "HandleMap_inv
           (m(s \<mapsto> \<lparr>initialized = True, stream = s,
                     cusparse_handle = Some (handle_of w (length (calls w)))\<rparr>))
           (w\<lparr>calls := calls w @
               [cusparseCreate_call CUSPARSE_STATUS_SUCCESS (Some (handle_of w (length (calls w)))),
                cusparseSetStream_call (Some (handle_of w (length (calls w)))) s
                  CUSPARSE_STATUS_SUCCESS]\<rparr>)"
    (is "HandleMap_inv ?m ?w")
proof -
  have old: "HandleMap_inv m ?w"
    by (rule HandleMap_inv_extend [OF assms]) simp_all
  show ?thesis
    unfolding HandleMap_inv_def
  proof (intro allI impI)
    fix t e
    assume te: "?m t = Some e"
    show "initialized e \<and> stream e = t \<and>
        (\<exists>k. Suc k < length (calls ?w) \<and> cusparse_handle e = Some (handle_of ?w k) \<and>
             calls ?w ! Suc k =
               cusparseSetStream_call (Some (handle_of ?w k)) t CUSPARSE_STATUS_SUCCESS)"
    proof (cases "t = s")
      case True
      with te have e: "e = \<lparr>initialized = True, stream = s,
                     cusparse_handle = Some (handle_of w (length (calls w)))\<rparr>"
        by simp
      have "Suc (length (calls w)) < length (calls ?w) \<and>
            cusparse_handle e = Some (handle_of ?w (length (calls w))) \<and>
            calls ?w ! Suc (length (calls w)) =
               cusparseSetStream_call (Some (handle_of ?w (length (calls w)))) t
                 CUSPARSE_STATUS_SUCCESS"
        using True e by (simp add: nth_append)
      then show ?thesis using True e by (intro conjI exI [of _ "length (calls w)"]) simp_all
    next
      case False
      with te have "m t = Some e" by simp
      with old show ?thesis unfolding HandleMap_inv_def by blast
    qed
  qed
qed

lemma acquire_step:
  assumes inv: "HandleMap_inv m w"
  shows "\<exists>st cs' m' w'. CudaSparse_Initialize cs m w = (Inr (st, cs', m'), w') \<and>
           HandleMap_inv m' w' \<and> status_of w' = status_of w \<and> handle_of w' = handle_of w \<and>
           (\<forall>s e. m s = Some e \<longrightarrow> m' s = Some e)"
proof (cases "m (cuda_stream cs)")
  case (Some e)
  with inv have "initialized e" unfolding HandleMap_inv_def by blast
  then have "CudaSparse_Initialize cs m w =
     (Inr (OK, cs\<lparr>cs_cusparse_handle := Some (cuda_stream cs), cs_initialized := True\<rparr>, m), w)"
    using Some by (simp add: acquire_present)
  with inv show ?thesis by simp
next
  case None
  show ?thesis
  proof (cases "status_of w (length (calls w)) = CUSPARSE_STATUS_SUCCESS")
    case False
    have "HandleMap_inv m (w\<lparr>calls := calls w @
            [cusparseCreate_call (status_of w (length (calls w))) None]\<rparr>)"
      by (rule HandleMap_inv_extend [OF inv]) simp_all
    with None False show ?thesis by (simp add: acquire_create_fails)
  next
    case c: True
    show ?thesis
    proof (cases "status_of w (Suc (length (calls w))) = CUSPARSE_STATUS_SUCCESS")
      case False
      have "HandleMap_inv m (w\<lparr>calls := calls w @
          [cusparseCreate_call CUSPARSE_STATUS_SUCCESS (Some (handle_of w (length (calls w)))),
           cusparseSetStream_call (Some (handle_of w (length (calls w)))) (cuda_stream cs)
             (status_of w (Suc (length (calls w))))]\<rparr>)"
        by (rule HandleMap_inv_extend [OF inv]) simp_all
      with None c False show ?thesis by (simp add: acquire_bind_fails)
    next
      case True
      from HandleMap_inv_insert [OF inv, of "cuda_stream cs"] None c True
      show ?thesis by (simp add: acquire_absent_succeeds)
    qed
  qed
qed

lemma acquire_all_inv:
  "HandleMap_inv m w \<Longrightarrow>
   \<exists>m' w'. acquire_all ss m w = (Inr m', w') \<and> HandleMap_inv m' w' \<and>
     status_of w' = status_of w \<and> handle_of w' = handle_of w"
proof (induction ss arbitrary: m w)
  case Nil
  then show ?case by simp
next
  case (Cons s ss)
  from acquire_step [OF Cons.prems, of "CudaSparse_ctor s"]
  obtain st cs' m1 w1 where
    step: "CudaSparse_Initialize (CudaSparse_ctor s) m w = (Inr (st, cs', m1), w1)"
    and inv1: "HandleMap_inv m1 w1"
    and o: "status_of w1 = status_of w" "handle_of w1 = handle_of w"
    by blast
  from Cons.IH [OF inv1] o step show ?case by simp
qed

lemma history_inv:
  "acquire_all ss Map.empty w0 = (Inr m, w) \<Longrightarrow> HandleMap_inv m w \<and> handle_of w = handle_of w0"
  using acquire_all_inv [OF HandleMap_inv_empty, of ss w0] by auto

lemma acquire_OK_result:
  assumes inv: "HandleMap_inv m w"
    and r: "CudaSparse_Initialize cs m w = (Inr (OK, cs', m'), w')"
  shows "cs' = cs\<lparr>cs_cusparse_handle := Some (cuda_stream cs), cs_initialized := True\<rparr>
       \<and> (\<exists>e. m' (cuda_stream cs) = Some e)"
proof (cases "m (cuda_stream cs)")
  case (Some e)
  with inv have "initialized e" unfolding HandleMap_inv_def by blast
  with Some r show ?thesis by (simp add: acquire_present)
next
  case None
  show ?thesis
  proof (cases "status_of w (length (calls w)) = CUSPARSE_STATUS_SUCCESS")
    case False
    with None r show ?thesis by (simp add: acquire_create_fails)
  next
    case c: True
    show ?thesis
    proof (cases "status_of w (Suc (length (calls w))) = CUSPARSE_STATUS_SUCCESS")
      case False
      with None c r show ?thesis by (simp add: acquire_bind_fails)
    next
      case True
      with None c r show ?thesis by (auto simp add: acquire_absent_succeeds)
    qed
  qed
qed

lemma acquire_first_OK:
  assumes absent: "m (cuda_stream cs) = None"
    and r: "CudaSparse_Initialize cs m w = (Inr (OK, cs', m'), w')"
  shows "cs' = cs\<lparr>cs_cusparse_handle := Some (cuda_stream cs), cs_initialized := True\<rparr>
       \<and> calls w' = calls w @
            [cusparseCreate_call CUSPARSE_STATUS_SUCCESS (Some (handle_of w (length (calls w)))),
             cusparseSetStream_call (Some (handle_of w (length (calls w)))) (cuda_stream cs)
               CUSPARSE_STATUS_SUCCESS]"
proof (cases "status_of w (length (calls w)) = CUSPARSE_STATUS_SUCCESS")
  case False
  with absent r show ?thesis by (simp add: acquire_create_fails)
next
  case c: True
  show ?thesis
  proof (cases "status_of w (Suc (length (calls w))) = CUSPARSE_STATUS_SUCCESS")
    case False
    with absent c r show ?thesis by (simp add: acquire_bind_fails)
  next
    case True
    with absent c r show ?thesis by (auto simp add: acquire_absent_succeeds)
  qed
qed

lemma acquire_step_result:
  assumes inv: "HandleMap_inv m w"
    and r: "CudaSparse_Initialize cs m w = (Inr (st, cs', m'), w')"
  shows "HandleMap_inv m' w' \<and> handle_of w' = handle_of w \<and>
         (\<forall>s e. m s = Some e \<longrightarrow> m' s = Some e)"
  using acquire_step [OF inv, of cs] r by auto

lemma acquire_all_result:
  "HandleMap_inv m w \<Longrightarrow> acquire_all ss m w = (Inr m', w') \<Longrightarrow>
   HandleMap_inv m' w' \<and> handle_of w' = handle_of w \<and>
   (\<forall>s e. m s = Some e \<longrightarrow> m' s = Some e)"
proof (induction ss arbitrary: m w)
  case Nil
  then show ?case by simp
next
  case (Cons s ss)
  from acquire_step [OF Cons.prems(1), of "CudaSparse_ctor s"]
  obtain st cs' m1 w1 where
    step: "CudaSparse_Initialize (CudaSparse_ctor s) m w = (Inr (st, cs', m1), w1)"
    and inv1: "HandleMap_inv m1 w1"
    and o: "handle_of w1 = handle_of w"
    and keep: "\<forall>s e. m s = Some e \<longrightarrow> m1 s = Some e"
    by blast
  from Cons.prems(2) step have rest: "acquire_all ss m1 w1 = (Inr m', w')" by simp
  from Cons.IH [OF inv1 rest] o keep show ?case by simp
qed

lemma acquire_replicate:
  assumes "m S = Some e" and "initialized e"
  shows "acquire_all (replicate n S) m w = (Inr m, w)"
proof (induction n)
  case 0
  show ?case by simp
next
  case (Suc n)
  from assms have "CudaSparse_Initialize (CudaSparse_ctor S) m w =
     (Inr (OK, (CudaSparse_ctor S)\<lparr>cs_cusparse_handle := Some S, cs_initialized := True\<rparr>, m), w)"
    using acquire_present [of m "CudaSparse_ctor S" e w] by (simp add: CudaSparse_ctor_def)
  with Suc show ?case by simp
qed

lemma inv_handles_distinct:
  assumes inv: "HandleMap_inv m w" and inj: "inj (handle_of w)"
    and a: "m s = Some e" and b: "m t = Some e'" and ne: "s \<noteq> t"
  shows "cusparse_handle e \<noteq> cusparse_handle e'"
proof
  assume eq: "cusparse_handle e = cusparse_handle e'"
  from inv a obtain k where
    k: "cusparse_handle e = Some (handle_of w k)"
       "calls w ! Suc k = cusparseSetStream_call (Some (handle_of w k)) s CUSPARSE_STATUS_SUCCESS"
    unfolding HandleMap_inv_def by blast
  from inv b obtain l where
    l: "cusparse_handle e' = Some (handle_of w l)"
       "calls w ! Suc l = cusparseSetStream_call (Some (handle_of w l)) t CUSPARSE_STATUS_SUCCESS"
    unfolding HandleMap_inv_def by blast
  from eq k(1) l(1) have "handle_of w k = handle_of w l" by simp
  with inj have "k = l" by (simp add: inj_eq)
  with k(2) l(2) have "s = t" by simp
  with ne show False by simp
qed

section \<open>The claims\<close>

subsection \<open>Destruction\<close>

text \<open>
  Claim C6. When a handle entry is destroyed, \<^verbatim>\<open>cusparseDestroy\<close> is called if and only
  if the entry is initialized, and then exactly once, on the entry's handle: the log grows
  by that one call or not at all. When \<^verbatim>\<open>Release\<close> returns, the entry is marked
  uninitialized, so releasing or destroying it again makes no further call.
\<close>

theorem dtor_destroys_iff_initialized:
  "calls (snd (dtor e w)) =
     calls w @ (if initialized e
                then [cusparseDestroy_call (cusparse_handle e) (status_of w (length (calls w)))]
                else [])
   \<and> destructions (snd (dtor e w)) = destructions w + (if initialized e then 1 else 0)
   \<and> (Release e w = (Inr e', w') \<longrightarrow>
        \<not> initialized e' \<and> Release e' w' = (Inr e', w') \<and> dtor e' w' = (Inr (), w'))"
proof (intro conjI impI)
  show "calls (snd (dtor e w)) =
     calls w @ (if initialized e
                then [cusparseDestroy_call (cusparse_handle e) (status_of w (length (calls w)))]
                else [])"
    by (rule dtor_calls)
  show "destructions (snd (dtor e w)) = destructions w + (if initialized e then 1 else 0)"
    by (simp add: destructions_def dtor_calls)
next
  assume r: "Release e w = (Inr e', w')"
  from Release_twice [OF r]
  show "\<not> initialized e'" "Release e' w' = (Inr e', w')" "dtor e' w' = (Inr (), w')"
    by simp_all
qed

theorem dtor_destroys_iff_initialized_witness:
  "calls (snd (dtor \<lparr>initialized = True, stream = 1, cusparse_handle = Some 100\<rparr> native_ok)) =
     [cusparseDestroy_call (Some 100) CUSPARSE_STATUS_SUCCESS]
   \<and> destructions (snd (dtor \<lparr>initialized = True, stream = 1, cusparse_handle = Some 100\<rparr> native_ok)) = 1
   \<and> Release \<lparr>initialized = True, stream = 1, cusparse_handle = Some 100\<rparr> native_ok =
       (Inr \<lparr>initialized = False, stream = 1, cusparse_handle = Some 100\<rparr>,
        native_ok\<lparr>calls := [cusparseDestroy_call (Some 100) CUSPARSE_STATUS_SUCCESS]\<rparr>)
   \<and> Release \<lparr>initialized = False, stream = 1, cusparse_handle = Some 100\<rparr>
         (native_ok\<lparr>calls := [cusparseDestroy_call (Some 100) CUSPARSE_STATUS_SUCCESS]\<rparr>) =
       (Inr \<lparr>initialized = False, stream = 1, cusparse_handle = Some 100\<rparr>,
        native_ok\<lparr>calls := [cusparseDestroy_call (Some 100) CUSPARSE_STATUS_SUCCESS]\<rparr>)"
proof -
  let ?e = "\<lparr>initialized = True, stream = 1, cusparse_handle = Some 100\<rparr>"
  let ?e' = "\<lparr>initialized = False, stream = 1, cusparse_handle = Some 100\<rparr>"
  let ?w' = "native_ok\<lparr>calls := [cusparseDestroy_call (Some 100) CUSPARSE_STATUS_SUCCESS]\<rparr>"
  have r: "Release ?e native_ok = (Inr ?e', ?w')"
    by (simp add: Release_def cusparseDestroy_def native_ok_def)
  from dtor_destroys_iff_initialized [of ?e native_ok ?e' ?w'] r
  show ?thesis by (simp add: native_ok_def destructions_def)
qed

text \<open>
  Claim C8. When \<^verbatim>\<open>cusparseDestroy\<close>, called while an initialized entry is released,
  returns a status other than success, the check on line 120 fails: \<^verbatim>\<open>Release\<close>, the
  destructor and a move assignment onto that entry all end in the fatal
  \<open>ConsistencyFault\<close>. None of them has a \<open>Status\<close> to return, so no caller sees a
  recoverable error. The destroy call itself was made.
\<close>

theorem destroy_failure_is_fatal:
  assumes "initialized e" and "status_of w (length (calls w)) \<noteq> CUSPARSE_STATUS_SUCCESS"
  shows "fst (Release e w) = Inl ConsistencyFault
       \<and> fst (dtor e w) = Inl ConsistencyFault
       \<and> (this \<noteq> rhs \<and> objs this = e \<longrightarrow>
            fst (move_assign this rhs objs w) = Inl ConsistencyFault)
       \<and> calls (snd (Release e w)) =
           calls w @ [cusparseDestroy_call (cusparse_handle e) (status_of w (length (calls w)))]"
  using assms by (simp add: Release_initialized dtor_initialized move_assign_def)

theorem destroy_failure_is_fatal_witness:
  "fst (Release \<lparr>initialized = True, stream = 1, cusparse_handle = Some 100\<rparr> (native_fails_at 0 7))
     = Inl ConsistencyFault
   \<and> fst (dtor \<lparr>initialized = True, stream = 1, cusparse_handle = Some 100\<rparr> (native_fails_at 0 7))
     = Inl ConsistencyFault
   \<and> fst (move_assign 0 1 live_entries (native_fails_at 0 7)) = Inl ConsistencyFault"
proof -
  let ?e = "\<lparr>initialized = True, stream = 1, cusparse_handle = Some 100\<rparr>"
  have h1: "initialized ?e" by simp
  have h2: "status_of (native_fails_at 0 7) (length (calls (native_fails_at 0 7)))
              \<noteq> CUSPARSE_STATUS_SUCCESS"
    by (simp add: native_fails_at_def CUSPARSE_STATUS_SUCCESS_def)
  have h3: "initialized (live_entries 0)" by (simp add: live_entries_def)
  from destroy_failure_is_fatal [OF h1 h2, of 0 1 live_entries]
       destroy_failure_is_fatal [OF h3 h2, of 0 1 live_entries]
  show ?thesis by simp
qed

subsection \<open>Use of an entry\<close>

text \<open>
  Claim C7. \<^verbatim>\<open>handle()\<close> requires its entry to be initialized: on an uninitialized
  entry, such as a freshly constructed one, the check on line 106 fails with the fatal
  \<open>ContractViolation\<close>, and on an initialized entry it yields the handle. A wrapped
  operation (\<^verbatim>\<open>Coo2csr\<close>; every wrapper in the file starts with the same check) on a
  \<^verbatim>\<open>CudaSparse\<close> that is not initialized, freshly constructed or left so by a failed
  \<^verbatim>\<open>Initialize\<close>, fails with the same fatal fault before any native call and returns
  no \<open>Status\<close>.
\<close>

theorem uninitialized_use_is_fatal:
  "(\<not> initialized e \<longrightarrow> handle e = Inl ContractViolation)
   \<and> (initialized e \<longrightarrow> handle e = Inr (cusparse_handle e))
   \<and> handle (CudaSparseHandles_ctor s) = Inl ContractViolation
   \<and> (\<not> cs_initialized cs \<longrightarrow> Coo2csr cs nnz rows m w = (Inl ContractViolation, w))
   \<and> Coo2csr (CudaSparse_ctor s) nnz rows m w = (Inl ContractViolation, w)
   \<and> (CudaSparse_Initialize (CudaSparse_ctor s) m w = (Inr (InitializationError c, cs', m'), w') \<longrightarrow>
        Coo2csr cs' nnz rows m' w' = (Inl ContractViolation, w'))"
proof (intro conjI impI)
  assume "CudaSparse_Initialize (CudaSparse_ctor s) m w = (Inr (InitializationError c, cs', m'), w')"
  then have "cs' = CudaSparse_ctor s" by (simp add: acquire_error_leaves_object)
  then show "Coo2csr cs' nnz rows m' w' = (Inl ContractViolation, w')"
    by (simp add: Coo2csr_def CudaSparse_ctor_def)
qed (simp_all add: handle_def Coo2csr_def CudaSparse_ctor_def CudaSparseHandles_ctor_def)

theorem uninitialized_use_is_fatal_witness:
  "handle \<lparr>initialized = False, stream = 5, cusparse_handle = Some 100\<rparr> = Inl ContractViolation
   \<and> handle \<lparr>initialized = True, stream = 5, cusparse_handle = Some 100\<rparr> = Inr (Some 100)
   \<and> Coo2csr \<lparr>cs_initialized = False, cuda_stream = 5, cs_cusparse_handle = Some 5\<rparr> 3 4
        [5 \<mapsto> \<lparr>initialized = True, stream = 5, cusparse_handle = Some 100\<rparr>] native_ok
       = (Inl ContractViolation, native_ok)
   \<and> Coo2csr (CudaSparse_ctor 5) 3 4 Map.empty
        (native_fails_at 0 3\<lparr>calls := [cusparseCreate_call 3 None]\<rparr>)
       = (Inl ContractViolation, native_fails_at 0 3\<lparr>calls := [cusparseCreate_call 3 None]\<rparr>)"
proof -
  let ?w' = "native_fails_at 0 3\<lparr>calls := [cusparseCreate_call 3 None]\<rparr>"
  have a: "CudaSparse_Initialize (CudaSparse_ctor 5) Map.empty (native_fails_at 0 3)
             = (Inr (InitializationError 3, CudaSparse_ctor 5, Map.empty), ?w')"
    by (simp add: acquire_create_fails native_fails_at_def CUSPARSE_STATUS_SUCCESS_def
        CudaSparse_ctor_def)
  from uninitialized_use_is_fatal
         [of "\<lparr>initialized = False, stream = 5, cusparse_handle = Some 100\<rparr>" 5
             "\<lparr>cs_initialized = False, cuda_stream = 5, cs_cusparse_handle = Some 5\<rparr>" 3 4
             "[5 \<mapsto> \<lparr>initialized = True, stream = 5, cusparse_handle = Some 100\<rparr>]" native_ok]
       uninitialized_use_is_fatal
         [of "\<lparr>initialized = True, stream = 5, cusparse_handle = Some 100\<rparr>" 5
             "CudaSparse_ctor 5" 3 4 Map.empty "native_fails_at 0 3" 3 "CudaSparse_ctor 5"
             Map.empty ?w'] a
  show ?thesis by simp
qed

subsection \<open>Acquisition of a stream that is not in the map\<close>

text \<open>
  Claim C2. For a stream \<open>S\<close> that is not in the map, \<^verbatim>\<open>CudaSparse::Initialize\<close> calls
  \<^verbatim>\<open>cusparseCreate\<close> first. When that call and the following \<^verbatim>\<open>cusparseSetStream\<close>
  succeed (the failing case is claim C3), it has built a new entry bound to \<open>S\<close>, holding
  the created handle, bound that handle to \<open>S\<close>, marked the entry initialized and
  inserted it under \<open>S\<close>; the object refers to that element and the call returns \<open>OK\<close>.
  These two native calls are the only ones made.
\<close>

theorem acquire_absent_creates:
  assumes "m S = None" and "cuda_stream cs = S"
  shows "(\<exists>st h rest. calls (snd (CudaSparse_Initialize cs m w)) =
            calls w @ cusparseCreate_call st h # rest)
       \<and> (status_of w (length (calls w)) = CUSPARSE_STATUS_SUCCESS \<and>
          status_of w (Suc (length (calls w))) = CUSPARSE_STATUS_SUCCESS \<longrightarrow>
          CudaSparse_Initialize cs m w =
            (Inr (OK, cs\<lparr>cs_cusparse_handle := Some S, cs_initialized := True\<rparr>,
                  m(S \<mapsto> \<lparr>initialized = True, stream = S,
                            cusparse_handle = Some (handle_of w (length (calls w)))\<rparr>)),
             w\<lparr>calls := calls w @
                 [cusparseCreate_call CUSPARSE_STATUS_SUCCESS
                    (Some (handle_of w (length (calls w)))),
                  cusparseSetStream_call (Some (handle_of w (length (calls w)))) S
                    CUSPARSE_STATUS_SUCCESS]\<rparr>))"
proof -
  from assms have absent: "m (cuda_stream cs) = None" by simp
  from absent have "\<exists>st h rest. calls (snd (CudaSparse_Initialize cs m w)) =
            calls w @ cusparseCreate_call st h # rest"
    by (rule acquire_absent_first_call)
  moreover from absent assms(2)
  have "status_of w (length (calls w)) = CUSPARSE_STATUS_SUCCESS \<and>
          status_of w (Suc (length (calls w))) = CUSPARSE_STATUS_SUCCESS \<longrightarrow>
          CudaSparse_Initialize cs m w =
            (Inr (OK, cs\<lparr>cs_cusparse_handle := Some S, cs_initialized := True\<rparr>,
                  m(S \<mapsto> \<lparr>initialized = True, stream = S,
                            cusparse_handle = Some (handle_of w (length (calls w)))\<rparr>)),
             w\<lparr>calls := calls w @
                 [cusparseCreate_call CUSPARSE_STATUS_SUCCESS
                    (Some (handle_of w (length (calls w)))),
                  cusparseSetStream_call (Some (handle_of w (length (calls w)))) S
                    CUSPARSE_STATUS_SUCCESS]\<rparr>)"
    by (simp add: acquire_absent_succeeds)
  ultimately show ?thesis by blast
qed

theorem acquire_absent_creates_witness:
  "CudaSparse_Initialize (CudaSparse_ctor 5) Map.empty native_ok =
     (Inr (OK, \<lparr>cs_initialized = True, cuda_stream = 5, cs_cusparse_handle = Some 5\<rparr>,
           [5 \<mapsto> \<lparr>initialized = True, stream = 5, cusparse_handle = Some 100\<rparr>]),
      native_ok\<lparr>calls := [cusparseCreate_call CUSPARSE_STATUS_SUCCESS (Some 100),
                            cusparseSetStream_call (Some 100) 5 CUSPARSE_STATUS_SUCCESS]\<rparr>)"
proof -
  have h1: "(Map.empty :: HandleMap) 5 = None" by simp
  have h2: "cuda_stream (CudaSparse_ctor 5) = 5" by (simp add: CudaSparse_ctor_def)
  from acquire_absent_creates [of Map.empty 5 "CudaSparse_ctor 5" native_ok] h1 h2
  show ?thesis by (simp add: native_ok_def CudaSparse_ctor_def)
qed

text \<open>
  Claim C3. For a stream \<open>S\<close> that is not in the map, if \<^verbatim>\<open>cusparseCreate\<close> or
  \<^verbatim>\<open>cusparseSetStream\<close> fails, \<^verbatim>\<open>CudaSparse::Initialize\<close> returns an initialization
  error carrying the status of the call that failed, leaves the map as it was (so without
  an entry for \<open>S\<close>) and the object uninitialized, and destroys nothing. The next
  acquisition of \<open>S\<close> calls \<^verbatim>\<open>cusparseCreate\<close> again, and succeeds if the library now
  succeeds: the failure is not cached.
\<close>

theorem acquire_failure_not_cached:
  assumes "m S = None" and "cuda_stream cs = S" and "cuda_stream cs2 = S"
    and "status_of w (length (calls w)) \<noteq> CUSPARSE_STATUS_SUCCESS \<or>
         status_of w (Suc (length (calls w))) \<noteq> CUSPARSE_STATUS_SUCCESS"
  shows "\<exists>c w'. CudaSparse_Initialize cs m w = (Inr (InitializationError c, cs, m), w')
          \<and> c \<noteq> CUSPARSE_STATUS_SUCCESS
          \<and> c = (if status_of w (length (calls w)) \<noteq> CUSPARSE_STATUS_SUCCESS
                  then status_of w (length (calls w))
                  else status_of w (Suc (length (calls w))))
          \<and> destructions w' = destructions w
          \<and> (\<exists>st h rest. calls (snd (CudaSparse_Initialize cs2 m w')) =
                calls w' @ cusparseCreate_call st h # rest)
          \<and> (status_of w (length (calls w')) = CUSPARSE_STATUS_SUCCESS \<and>
              status_of w (Suc (length (calls w'))) = CUSPARSE_STATUS_SUCCESS \<longrightarrow>
              (\<exists>e w''. CudaSparse_Initialize cs2 m w' =
                 (Inr (OK, cs2\<lparr>cs_cusparse_handle := Some S, cs_initialized := True\<rparr>,
                       m(S \<mapsto> e)), w'')))"
proof -
  from assms have absent: "m (cuda_stream cs) = None" "m (cuda_stream cs2) = None" by simp_all
  show ?thesis
  proof (cases "status_of w (length (calls w)) = CUSPARSE_STATUS_SUCCESS")
    case False
    let ?w' = "w\<lparr>calls := calls w @ [cusparseCreate_call (status_of w (length (calls w))) None]\<rparr>"
    have r: "CudaSparse_Initialize cs m w =
               (Inr (InitializationError (status_of w (length (calls w))), cs, m), ?w')"
      using absent False by (simp add: acquire_create_fails)
    have retry: "\<exists>st h rest. calls (snd (CudaSparse_Initialize cs2 m ?w')) =
                calls ?w' @ cusparseCreate_call st h # rest"
      using absent(2) by (rule acquire_absent_first_call)
    have again: "status_of w (length (calls ?w')) = CUSPARSE_STATUS_SUCCESS \<and>
              status_of w (Suc (length (calls ?w'))) = CUSPARSE_STATUS_SUCCESS \<longrightarrow>
              (\<exists>e w''. CudaSparse_Initialize cs2 m ?w' =
                 (Inr (OK, cs2\<lparr>cs_cusparse_handle := Some S, cs_initialized := True\<rparr>,
                       m(S \<mapsto> e)), w''))"
      using absent(2) assms(3) by (auto simp add: acquire_absent_succeeds)
    from r False retry again show ?thesis
      by (intro exI [of _ "status_of w (length (calls w))"] exI [of _ ?w'])
         (simp add: destructions_def)
  next
    case c: True
    with assms(4) have b: "status_of w (Suc (length (calls w))) \<noteq> CUSPARSE_STATUS_SUCCESS"
      by simp
    let ?w' = "w\<lparr>calls := calls w @
          [cusparseCreate_call CUSPARSE_STATUS_SUCCESS (Some (handle_of w (length (calls w)))),
           cusparseSetStream_call (Some (handle_of w (length (calls w)))) (cuda_stream cs)
             (status_of w (Suc (length (calls w))))]\<rparr>"
    have r: "CudaSparse_Initialize cs m w =
               (Inr (InitializationError (status_of w (Suc (length (calls w)))), cs, m), ?w')"
      using absent c b by (simp add: acquire_bind_fails)
    have retry: "\<exists>st h rest. calls (snd (CudaSparse_Initialize cs2 m ?w')) =
                calls ?w' @ cusparseCreate_call st h # rest"
      using absent(2) by (rule acquire_absent_first_call)
    have again: "status_of w (length (calls ?w')) = CUSPARSE_STATUS_SUCCESS \<and>
              status_of w (Suc (length (calls ?w'))) = CUSPARSE_STATUS_SUCCESS \<longrightarrow>
              (\<exists>e w''. CudaSparse_Initialize cs2 m ?w' =
                 (Inr (OK, cs2\<lparr>cs_cusparse_handle := Some S, cs_initialized := True\<rparr>,
                       m(S \<mapsto> e)), w''))"
      using absent(2) assms(3) by (auto simp add: acquire_absent_succeeds)
    from r c b retry again show ?thesis
      by (intro exI [of _ "status_of w (Suc (length (calls w)))"] exI [of _ ?w'])
         (simp add: destructions_def)
  qed
qed

theorem acquire_failure_not_cached_witness:
  "\<exists>c w'. CudaSparse_Initialize (CudaSparse_ctor 5) Map.empty (native_fails_at 0 3) =
            (Inr (InitializationError c, CudaSparse_ctor 5, Map.empty), w')
        \<and> c = 3
        \<and> (\<exists>e w''. CudaSparse_Initialize (CudaSparse_ctor 5) Map.empty w' =
              (Inr (OK, (CudaSparse_ctor 5)\<lparr>cs_cusparse_handle := Some 5, cs_initialized := True\<rparr>,
                    [5 \<mapsto> e]), w''))"
proof -
  let ?w = "native_fails_at 0 3"
  have h1: "(Map.empty :: HandleMap) 5 = None" by simp
  have h2: "cuda_stream (CudaSparse_ctor 5) = 5" by (simp add: CudaSparse_ctor_def)
  have h3: "status_of ?w (length (calls ?w)) \<noteq> CUSPARSE_STATUS_SUCCESS \<or>
            status_of ?w (Suc (length (calls ?w))) \<noteq> CUSPARSE_STATUS_SUCCESS"
    by (simp add: native_fails_at_def CUSPARSE_STATUS_SUCCESS_def)
  from acquire_failure_not_cached
         [of Map.empty 5 "CudaSparse_ctor 5" "CudaSparse_ctor 5" ?w, OF h1 h2 h2 h3]
  obtain c w' where
    r: "CudaSparse_Initialize (CudaSparse_ctor 5) Map.empty ?w =
          (Inr (InitializationError c, CudaSparse_ctor 5, Map.empty), w')"
    and c: "c = (if status_of ?w (length (calls ?w)) \<noteq> CUSPARSE_STATUS_SUCCESS
                  then status_of ?w (length (calls ?w))
                  else status_of ?w (Suc (length (calls ?w))))"
    and again: "status_of ?w (length (calls w')) = CUSPARSE_STATUS_SUCCESS \<and>
              status_of ?w (Suc (length (calls w'))) = CUSPARSE_STATUS_SUCCESS \<longrightarrow>
              (\<exists>e w''. CudaSparse_Initialize (CudaSparse_ctor 5) Map.empty w' =
                 (Inr (OK, (CudaSparse_ctor 5)\<lparr>cs_cusparse_handle := Some 5,
                         cs_initialized := True\<rparr>, [5 \<mapsto> e]), w''))"
    by blast
  have w': "w' = ?w\<lparr>calls := [cusparseCreate_call 3 None]\<rparr>"
    using r by (simp add: acquire_create_fails native_fails_at_def CUSPARSE_STATUS_SUCCESS_def
        CudaSparse_ctor_def)
  have "c = 3" using c by (simp add: native_fails_at_def CUSPARSE_STATUS_SUCCESS_def)
  moreover have "\<exists>e w''. CudaSparse_Initialize (CudaSparse_ctor 5) Map.empty w' =
                 (Inr (OK, (CudaSparse_ctor 5)\<lparr>cs_cusparse_handle := Some 5,
                         cs_initialized := True\<rparr>, [5 \<mapsto> e]), w'')"
    using again w' by (simp add: native_fails_at_def CUSPARSE_STATUS_SUCCESS_def)
  ultimately show ?thesis using r by blast
qed

text \<open>
  Claim C10. If \<^verbatim>\<open>cusparseCreate\<close> succeeds and \<^verbatim>\<open>cusparseSetStream\<close> then fails,
  \<^verbatim>\<open>CudaSparseHandles::Initialize\<close> returns the error with the entry still marked
  uninitialized although it holds the created handle; destroying that entry makes no
  native call. In \<^verbatim>\<open>CudaSparse::Initialize\<close> the log therefore ends with the create and
  the failed bind: the created handle is never passed to \<^verbatim>\<open>cusparseDestroy\<close>.
\<close>

theorem bind_failure_leaks_handle:
  assumes "\<not> initialized e"
    and "status_of w (length (calls w)) = CUSPARSE_STATUS_SUCCESS"
    and "status_of w (Suc (length (calls w))) \<noteq> CUSPARSE_STATUS_SUCCESS"
  shows "\<exists>e' w'. Initialize e w =
            ((InitializationError (status_of w (Suc (length (calls w)))), e'), w')
         \<and> \<not> initialized e'
         \<and> cusparse_handle e' = Some (handle_of w (length (calls w)))
         \<and> calls w' = calls w @
             [cusparseCreate_call CUSPARSE_STATUS_SUCCESS (Some (handle_of w (length (calls w)))),
              cusparseSetStream_call (Some (handle_of w (length (calls w)))) (stream e)
                (status_of w (Suc (length (calls w))))]
         \<and> dtor e' w' = (Inr (), w')
         \<and> (m (cuda_stream cs) = None \<longrightarrow>
              fst (CudaSparse_Initialize cs m w) =
                Inr (InitializationError (status_of w (Suc (length (calls w)))), cs, m)
              \<and> calls (snd (CudaSparse_Initialize cs m w)) = calls w @
                  [cusparseCreate_call CUSPARSE_STATUS_SUCCESS
                     (Some (handle_of w (length (calls w)))),
                   cusparseSetStream_call (Some (handle_of w (length (calls w)))) (cuda_stream cs)
                     (status_of w (Suc (length (calls w))))]
              \<and> destructions (snd (CudaSparse_Initialize cs m w)) = destructions w)"
  using assms
  by (simp add: Initialize_bind_fails dtor_uninitialized acquire_bind_fails destructions_def)

theorem bind_failure_leaks_handle_witness:
  "\<exists>e' w'. Initialize (CudaSparseHandles_ctor 5) (native_fails_at 1 7) =
            ((InitializationError 7, e'), w')
         \<and> \<not> initialized e'
         \<and> cusparse_handle e' = Some 100
         \<and> calls w' = [cusparseCreate_call CUSPARSE_STATUS_SUCCESS (Some 100),
                        cusparseSetStream_call (Some 100) 5 7]
         \<and> dtor e' w' = (Inr (), w')
         \<and> calls (snd (CudaSparse_Initialize (CudaSparse_ctor 5) Map.empty (native_fails_at 1 7)))
             = [cusparseCreate_call CUSPARSE_STATUS_SUCCESS (Some 100),
                cusparseSetStream_call (Some 100) 5 7]"
proof -
  let ?w = "native_fails_at 1 7"
  have h1: "\<not> initialized (CudaSparseHandles_ctor 5)" by (simp add: CudaSparseHandles_ctor_def)
  have h2: "status_of ?w (length (calls ?w)) = CUSPARSE_STATUS_SUCCESS"
    by (simp add: native_fails_at_def)
  have h3: "status_of ?w (Suc (length (calls ?w))) \<noteq> CUSPARSE_STATUS_SUCCESS"
    by (simp add: native_fails_at_def CUSPARSE_STATUS_SUCCESS_def)
  have h4: "(Map.empty :: HandleMap) (cuda_stream (CudaSparse_ctor 5)) = None" by simp
  have v: "status_of ?w (Suc (length (calls ?w))) = 7" "handle_of ?w (length (calls ?w)) = 100"
    "calls ?w = []" "stream (CudaSparseHandles_ctor 5) = 5" "cuda_stream (CudaSparse_ctor 5) = 5"
    by (simp_all add: native_fails_at_def CudaSparseHandles_ctor_def CudaSparse_ctor_def)
  from bind_failure_leaks_handle [OF h1 h2 h3, of Map.empty "CudaSparse_ctor 5"] h4
  obtain e' w' where
    "Initialize (CudaSparseHandles_ctor 5) ?w =
       ((InitializationError (status_of ?w (Suc (length (calls ?w)))), e'), w')"
    "\<not> initialized e'"
    "cusparse_handle e' = Some (handle_of ?w (length (calls ?w)))"
    "calls w' = calls ?w @
       [cusparseCreate_call CUSPARSE_STATUS_SUCCESS (Some (handle_of ?w (length (calls ?w)))),
        cusparseSetStream_call (Some (handle_of ?w (length (calls ?w))))
          (stream (CudaSparseHandles_ctor 5)) (status_of ?w (Suc (length (calls ?w))))]"
    "dtor e' w' = (Inr (), w')"
    "calls (snd (CudaSparse_Initialize (CudaSparse_ctor 5) Map.empty ?w)) = calls ?w @
       [cusparseCreate_call CUSPARSE_STATUS_SUCCESS (Some (handle_of ?w (length (calls ?w)))),
        cusparseSetStream_call (Some (handle_of ?w (length (calls ?w))))
          (cuda_stream (CudaSparse_ctor 5)) (status_of ?w (Suc (length (calls ?w))))]"
    by blast
  then show ?thesis
    by (intro exI [of _ e'] exI [of _ w']) (simp add: v native_fails_at_def)
qed

subsection \<open>Relocation of an entry\<close>

text \<open>
  Claim C5, as stated, says that neither move construction nor move assignment makes a
  native teardown call. Move assignment starts with \<^verbatim>\<open>Release()\<close> on its destination
  (line 87): assigning onto an initialized entry destroys the handle that entry held.
  Here entry 1 is moved onto the initialized entry 0, whose handle is 10.
\<close>

theorem move_assign_destroys_target:
  "calls native_ok = [] \<and>
   calls (snd (move_assign 0 1 live_entries native_ok)) =
     [cusparseDestroy_call (Some 10) CUSPARSE_STATUS_SUCCESS]"
  by (simp add: move_assign_def Release_def cusparseDestroy_def live_entries_def native_ok_def)

text \<open>
  Claim C5, amended. Move construction makes no native call: the new entry takes over all
  fields, the source is left marked uninitialized and its destructor makes no call. A move
  assignment onto itself changes nothing and makes no call. A move assignment between
  different entries never calls \<^verbatim>\<open>cusparseCreate\<close> and makes one native call only when
  the destination was initialized, the \<^verbatim>\<open>cusparseDestroy\<close> of the handle the destination
  held before, never of the handle being transferred; when it returns, the destination
  has taken over all fields of the source, the source is marked uninitialized, its
  destructor makes no call, and no other entry has changed.
\<close>

theorem move_transfers_ownership:
  "fst (move_ctor rhs) = rhs
   \<and> snd (move_ctor rhs) = rhs\<lparr>initialized := False\<rparr>
   \<and> dtor (snd (move_ctor rhs)) w = (Inr (), w)
   \<and> move_assign a a objs w = (Inr objs, w)
   \<and> (this \<noteq> src \<longrightarrow>
        calls (snd (move_assign this src objs w)) =
          calls w @ (if initialized (objs this)
                     then [cusparseDestroy_call (cusparse_handle (objs this))
                             (status_of w (length (calls w)))]
                     else [])
        \<and> creations (snd (move_assign this src objs w)) = creations w
        \<and> (move_assign this src objs w = (Inr objs', w') \<longrightarrow>
             objs' this = objs src
             \<and> objs' src = (objs src)\<lparr>initialized := False\<rparr>
             \<and> dtor (objs' src) w' = (Inr (), w')
             \<and> (\<forall>b. b \<noteq> this \<and> b \<noteq> src \<longrightarrow> objs' b = objs b)))"
proof (intro conjI impI)
  show "fst (move_ctor rhs) = rhs" by (simp add: move_ctor_def copy_all_fields)
  show "snd (move_ctor rhs) = rhs\<lparr>initialized := False\<rparr>" by (simp add: move_ctor_def)
  show "dtor (snd (move_ctor rhs)) w = (Inr (), w)"
    by (simp add: move_ctor_def dtor_uninitialized)
  show "move_assign a a objs w = (Inr objs, w)" by (rule move_assign_self)
next
  assume ne: "this \<noteq> src"
  show "calls (snd (move_assign this src objs w)) =
          calls w @ (if initialized (objs this)
                     then [cusparseDestroy_call (cusparse_handle (objs this))
                             (status_of w (length (calls w)))]
                     else [])"
    using ne
    by (cases "initialized (objs this)")
       (simp_all add: move_assign_initialized_target move_assign_uninitialized_target)
  then show "creations (snd (move_assign this src objs w)) = creations w"
    by (simp add: creations_def)
next
  assume ne: "this \<noteq> src" and r: "move_assign this src objs w = (Inr objs', w')"
  have o: "objs' = objs(this := objs src, src := (objs src)\<lparr>initialized := False\<rparr>)"
  proof (cases "initialized (objs this)")
    case True
    with ne r show ?thesis
      by (simp add: move_assign_initialized_target split: if_splits)
  next
    case False
    with ne r show ?thesis by (simp add: move_assign_uninitialized_target)
  qed
  from o ne show "objs' this = objs src" by simp
  from o show s: "objs' src = (objs src)\<lparr>initialized := False\<rparr>" by simp
  from s show "dtor (objs' src) w' = (Inr (), w')" by (simp add: dtor_uninitialized)
  from o show "\<forall>b. b \<noteq> this \<and> b \<noteq> src \<longrightarrow> objs' b = objs b" by simp
qed

theorem move_transfers_ownership_witness:
  "fst (move_ctor (live_entries 1)) = live_entries 1
   \<and> \<not> initialized (snd (move_ctor (live_entries 1)))
   \<and> dtor (snd (move_ctor (live_entries 1))) native_ok = (Inr (), native_ok)
   \<and> move_assign 1 1 live_entries native_ok = (Inr live_entries, native_ok)
   \<and> calls (snd (move_assign 2 1 (live_entries(2 := CudaSparseHandles_ctor 2)) native_ok)) = []
   \<and> calls (snd (move_assign 0 1 live_entries native_ok)) =
        [cusparseDestroy_call (Some 10) CUSPARSE_STATUS_SUCCESS]
   \<and> creations (snd (move_assign 0 1 live_entries native_ok)) = 0"
proof -
  have ne: "(2::nat) \<noteq> 1" "(0::nat) \<noteq> 1" by simp_all
  let ?objs = "live_entries(2 := CudaSparseHandles_ctor 2)"
  let ?objs' = "?objs(2 := ?objs 1, 1 := (?objs 1)\<lparr>initialized := False\<rparr>)"
  have r: "move_assign 2 1 ?objs native_ok = (Inr ?objs', native_ok)"
    by (simp add: move_assign_uninitialized_target CudaSparseHandles_ctor_def)
  from move_transfers_ownership
         [of "live_entries 1" native_ok 1 ?objs 2 1 ?objs' native_ok] ne(1) r
  have a: "fst (move_ctor (live_entries 1)) = live_entries 1"
    "snd (move_ctor (live_entries 1)) = (live_entries 1)\<lparr>initialized := False\<rparr>"
    "dtor (snd (move_ctor (live_entries 1))) native_ok = (Inr (), native_ok)"
    "calls (snd (move_assign 2 1 ?objs native_ok)) =
       calls native_ok @ (if initialized (?objs 2)
                     then [cusparseDestroy_call (cusparse_handle (?objs 2))
                             (status_of native_ok (length (calls native_ok)))]
                     else [])"
    by blast+
  from move_transfers_ownership
         [of "live_entries 1" native_ok 1 live_entries 0 1 live_entries] ne(2)
  have b: "move_assign 1 1 live_entries native_ok = (Inr live_entries, native_ok)"
    "calls (snd (move_assign 0 1 live_entries native_ok)) =
       calls native_ok @ (if initialized (live_entries 0)
                     then [cusparseDestroy_call (cusparse_handle (live_entries 0))
                             (status_of native_ok (length (calls native_ok)))]
                     else [])"
    "creations (snd (move_assign 0 1 live_entries native_ok)) = creations native_ok"
    by blast+
  have v: "calls native_ok = []" "initialized (live_entries 0)"
    "cusparse_handle (live_entries 0) = Some 10" "\<not> initialized (?objs 2)"
    "status_of native_ok 0 = CUSPARSE_STATUS_SUCCESS" "creations native_ok = 0"
    by (simp_all add: native_ok_def live_entries_def CudaSparseHandles_ctor_def creations_def)
  from a b show ?thesis by (simp add: v CudaSparseHandles_ctor_def)
qed

subsection \<open>Acquisition of a stream that is in the map\<close>

text \<open>
  Claim C1. In every state reached by a history of acquisitions from the empty map, for a
  stream \<open>S\<close> that is in the map, \<^verbatim>\<open>CudaSparse::Initialize\<close> returns \<open>OK\<close> with a
  reference to the element stored under \<open>S\<close>, and leaves the map and the native log as
  they were: no \<^verbatim>\<open>cusparseCreate\<close> and no \<^verbatim>\<open>cusparseSetStream\<close> call is made. So any
  number of further acquisitions of \<open>S\<close> changes nothing. If the state is the one produced
  by the first, successful acquisition of \<open>S\<close>, that acquisition returned the same
  reference, and over it and all the repetitions exactly one native creation was made.
\<close>

theorem acquire_present_idempotent:
  assumes hist: "acquire_all hist Map.empty w0 = (Inr m, w)"
    and present: "m S = Some e" and cs: "cuda_stream cs = S"
  shows "CudaSparse_Initialize cs m w =
           (Inr (OK, cs\<lparr>cs_cusparse_handle := Some S, cs_initialized := True\<rparr>, m), w)
       \<and> acquire_all (replicate n S) m w = (Inr m, w)
       \<and> (m0 S = None \<and> cuda_stream cs0 = S \<and>
          CudaSparse_Initialize cs0 m0 w1 = (Inr (OK, cs0', m), w) \<longrightarrow>
            cs_cusparse_handle cs0' = Some S
          \<and> creations w = creations w1 + 1
          \<and> creations (snd (acquire_all (replicate n S) m w)) = creations w1 + 1)"
proof -
  from history_inv [OF hist] have inv: "HandleMap_inv m w" by simp
  with present have init: "initialized e" unfolding HandleMap_inv_def by blast
  from present cs init have one: "CudaSparse_Initialize cs m w =
           (Inr (OK, cs\<lparr>cs_cusparse_handle := Some S, cs_initialized := True\<rparr>, m), w)"
    using acquire_present [of m cs e w] by simp
  have many: "acquire_all (replicate n S) m w = (Inr m, w)"
    using present init by (rule acquire_replicate)
  have first: "cs_cusparse_handle cs0' = Some S \<and> creations w = creations w1 + 1
          \<and> creations (snd (acquire_all (replicate n S) m w)) = creations w1 + 1"
    if a: "m0 S = None" and b: "cuda_stream cs0 = S"
      and r: "CudaSparse_Initialize cs0 m0 w1 = (Inr (OK, cs0', m), w)"
  proof -
    from a b have "m0 (cuda_stream cs0) = None" by simp
    from acquire_first_OK [OF this r] b
    have "cs_cusparse_handle cs0' = Some S" and "creations w = creations w1 + 1"
      by (simp_all add: creations_def)
    with many show ?thesis by simp
  qed
  from one many first show ?thesis by blast
qed

theorem acquire_present_idempotent_witness:
  "CudaSparse_Initialize (CudaSparse_ctor 5)
      [5 \<mapsto> \<lparr>initialized = True, stream = 5, cusparse_handle = Some 100\<rparr>]
      (native_ok\<lparr>calls := [cusparseCreate_call CUSPARSE_STATUS_SUCCESS (Some 100),
                            cusparseSetStream_call (Some 100) 5 CUSPARSE_STATUS_SUCCESS]\<rparr>) =
     (Inr (OK, \<lparr>cs_initialized = True, cuda_stream = 5, cs_cusparse_handle = Some 5\<rparr>,
           [5 \<mapsto> \<lparr>initialized = True, stream = 5, cusparse_handle = Some 100\<rparr>]),
      native_ok\<lparr>calls := [cusparseCreate_call CUSPARSE_STATUS_SUCCESS (Some 100),
                            cusparseSetStream_call (Some 100) 5 CUSPARSE_STATUS_SUCCESS]\<rparr>)
   \<and> creations (snd (acquire_all (replicate 3 5)
        [5 \<mapsto> \<lparr>initialized = True, stream = 5, cusparse_handle = Some 100\<rparr>]
        (native_ok\<lparr>calls := [cusparseCreate_call CUSPARSE_STATUS_SUCCESS (Some 100),
                              cusparseSetStream_call (Some 100) 5 CUSPARSE_STATUS_SUCCESS]\<rparr>)))
       = 1"
proof -
  let ?e = "\<lparr>initialized = True, stream = 5, cusparse_handle = Some 100\<rparr>"
  let ?m = "[5 \<mapsto> ?e]"
  let ?w = "native_ok\<lparr>calls := [cusparseCreate_call CUSPARSE_STATUS_SUCCESS (Some 100),
                            cusparseSetStream_call (Some 100) 5 CUSPARSE_STATUS_SUCCESS]\<rparr>"
  let ?cs' = "\<lparr>cs_initialized = True, cuda_stream = 5, cs_cusparse_handle = Some 5\<rparr>"
  have first: "CudaSparse_Initialize (CudaSparse_ctor 5) Map.empty native_ok =
                 (Inr (OK, ?cs', ?m), ?w)"
    by (simp add: acquire_absent_succeeds native_ok_def CudaSparse_ctor_def)
  then have hist: "acquire_all [5] Map.empty native_ok = (Inr ?m, ?w)" by simp
  have present: "?m 5 = Some ?e" by simp
  have cs: "cuda_stream (CudaSparse_ctor 5) = 5" by (simp add: CudaSparse_ctor_def)
  have absent: "(Map.empty :: HandleMap) 5 = None" by simp
  from acquire_present_idempotent [OF hist present cs, of 3 Map.empty "CudaSparse_ctor 5"
         native_ok ?cs'] absent cs first
  have a: "CudaSparse_Initialize (CudaSparse_ctor 5) ?m ?w =
           (Inr (OK, (CudaSparse_ctor 5)\<lparr>cs_cusparse_handle := Some 5,
                   cs_initialized := True\<rparr>, ?m), ?w)"
    and b: "creations (snd (acquire_all (replicate 3 5) ?m ?w)) = creations native_ok + 1"
    by blast+
  have c: "(CudaSparse_ctor 5)\<lparr>cs_cusparse_handle := Some 5, cs_initialized := True\<rparr> = ?cs'"
    by (simp add: CudaSparse_ctor_def)
  have d: "creations native_ok = 0" by (simp add: creations_def native_ok_def)
  from a b show ?thesis unfolding c d by simp
qed

subsection \<open>Different streams\<close>

text \<open>
  Claim C9. In every state reached by a history of acquisitions from the empty map, a
  successful acquisition of \<open>S1\<close> and a later successful acquisition of a different stream
  \<open>S2\<close> return different references, to the elements stored under \<open>S1\<close> and \<open>S2\<close>.
  These are different entries, bound to \<open>S1\<close> and \<open>S2\<close>, and the first is the one the
  first acquisition returned. If the library never hands out the same handle twice, the
  two entries hold different native handles.
\<close>

theorem distinct_streams_distinct_entries:
  assumes hist: "acquire_all hist Map.empty w0 = (Inr m, w)"
    and ne: "S1 \<noteq> S2"
    and csa: "cuda_stream csa = S1" and csb: "cuda_stream csb = S2"
    and r1: "CudaSparse_Initialize csa m w = (Inr (OK, cs1, m1), w1)"
    and mid: "acquire_all mid m1 w1 = (Inr m1', w1')"
    and r2: "CudaSparse_Initialize csb m1' w1' = (Inr (OK, cs2, m2), w2)"
  shows "cs_cusparse_handle cs1 = Some S1 \<and> cs_cusparse_handle cs2 = Some S2
       \<and> cs_cusparse_handle cs1 \<noteq> cs_cusparse_handle cs2
       \<and> (\<exists>e1 e2. m1 S1 = Some e1 \<and> m2 S1 = Some e1 \<and> m2 S2 = Some e2
            \<and> e1 \<noteq> e2 \<and> stream e1 = S1 \<and> stream e2 = S2
            \<and> initialized e1 \<and> initialized e2
            \<and> (inj (handle_of w0) \<longrightarrow> cusparse_handle e1 \<noteq> cusparse_handle e2))"
proof -
  from history_inv [OF hist] have inv: "HandleMap_inv m w" and h0: "handle_of w = handle_of w0"
    by simp_all
  from acquire_step_result [OF inv r1]
  have inv1: "HandleMap_inv m1 w1" and h1: "handle_of w1 = handle_of w" by simp_all
  from acquire_all_result [OF inv1 mid]
  have inv1': "HandleMap_inv m1' w1'" and h1': "handle_of w1' = handle_of w1"
    and keep1: "\<forall>s e. m1 s = Some e \<longrightarrow> m1' s = Some e" by simp_all
  from acquire_step_result [OF inv1' r2]
  have inv2: "HandleMap_inv m2 w2" and h2: "handle_of w2 = handle_of w1'"
    and keep2: "\<forall>s e. m1' s = Some e \<longrightarrow> m2 s = Some e" by simp_all
  from acquire_OK_result [OF inv r1] csa
  obtain e1 where p1: "cs_cusparse_handle cs1 = Some S1" and e1: "m1 S1 = Some e1" by auto
  from acquire_OK_result [OF inv1' r2] csb
  obtain e2 where p2: "cs_cusparse_handle cs2 = Some S2" and e2: "m2 S2 = Some e2" by auto
  from e1 keep1 keep2 have e1': "m2 S1 = Some e1" by blast
  from inv2 e1' have i1: "initialized e1" "stream e1 = S1" unfolding HandleMap_inv_def by blast+
  from inv2 e2 have i2: "initialized e2" "stream e2 = S2" unfolding HandleMap_inv_def by blast+
  from i1(2) i2(2) ne have d: "e1 \<noteq> e2" by auto
  have hd: "cusparse_handle e1 \<noteq> cusparse_handle e2" if "inj (handle_of w0)"
  proof -
    from that h0 h1 h1' h2 have "inj (handle_of w2)" by simp
    from inv_handles_distinct [OF inv2 this e1' e2 ne] show ?thesis .
  qed
  from p1 p2 ne e1 e1' e2 d i1 i2 hd show ?thesis by auto
qed

theorem distinct_streams_distinct_entries_witness:
  "\<exists>cs1 cs2 m1 w1 m2 w2.
     CudaSparse_Initialize (CudaSparse_ctor 5) Map.empty native_ok = (Inr (OK, cs1, m1), w1)
     \<and> CudaSparse_Initialize (CudaSparse_ctor 6) m1 w1 = (Inr (OK, cs2, m2), w2)
     \<and> cs_cusparse_handle cs1 = Some 5 \<and> cs_cusparse_handle cs2 = Some 6
     \<and> (\<exists>e1 e2. m2 5 = Some e1 \<and> m2 6 = Some e2 \<and> e1 \<noteq> e2
           \<and> cusparse_handle e1 \<noteq> cusparse_handle e2)"
proof -
  let ?e1 = "\<lparr>initialized = True, stream = 5, cusparse_handle = Some 100\<rparr>"
  let ?e2 = "\<lparr>initialized = True, stream = 6, cusparse_handle = Some 102\<rparr>"
  let ?m1 = "[5 \<mapsto> ?e1] :: HandleMap"
  let ?w1 = "native_ok\<lparr>calls := [cusparseCreate_call CUSPARSE_STATUS_SUCCESS (Some 100),
                            cusparseSetStream_call (Some 100) 5 CUSPARSE_STATUS_SUCCESS]\<rparr>"
  let ?m2 = "?m1(6 \<mapsto> ?e2) :: HandleMap"
  let ?w2 = "native_ok\<lparr>calls := [cusparseCreate_call CUSPARSE_STATUS_SUCCESS (Some 100),
                            cusparseSetStream_call (Some 100) 5 CUSPARSE_STATUS_SUCCESS,
                            cusparseCreate_call CUSPARSE_STATUS_SUCCESS (Some 102),
                            cusparseSetStream_call (Some 102) 6 CUSPARSE_STATUS_SUCCESS]\<rparr>"
  let ?cs1 = "\<lparr>cs_initialized = True, cuda_stream = 5, cs_cusparse_handle = Some 5\<rparr>"
  let ?cs2 = "\<lparr>cs_initialized = True, cuda_stream = 6, cs_cusparse_handle = Some 6\<rparr>"
  have hist: "acquire_all [] Map.empty native_ok = (Inr Map.empty, native_ok)" by simp
  have ne: "(5::nat) \<noteq> 6" by simp
  have csa: "cuda_stream (CudaSparse_ctor 5) = 5" and csb: "cuda_stream (CudaSparse_ctor 6) = 6"
    by (simp_all add: CudaSparse_ctor_def)
  have r1: "CudaSparse_Initialize (CudaSparse_ctor 5) Map.empty native_ok = (Inr (OK, ?cs1, ?m1), ?w1)"
    by (simp add: acquire_absent_succeeds native_ok_def CudaSparse_ctor_def)
  have mid: "acquire_all [] ?m1 ?w1 = (Inr ?m1, ?w1)" by simp
  have r2: "CudaSparse_Initialize (CudaSparse_ctor 6) ?m1 ?w1 = (Inr (OK, ?cs2, ?m2), ?w2)"
    by (simp add: acquire_absent_succeeds native_ok_def CudaSparse_ctor_def)
  have inj: "inj (handle_of native_ok)" by (simp add: native_ok_def inj_def)
  from distinct_streams_distinct_entries [OF hist ne csa csb r1 mid r2] inj
  have "cs_cusparse_handle ?cs1 = Some 5 \<and> cs_cusparse_handle ?cs2 = Some 6
     \<and> (\<exists>e1 e2. ?m2 5 = Some e1 \<and> ?m2 6 = Some e2 \<and> e1 \<noteq> e2
           \<and> cusparse_handle e1 \<noteq> cusparse_handle e2)"
    by blast
  with r1 r2 show ?thesis by blast
qed

end
